theory Spec2Isabelle
  imports Complex_Main "HOL-Library.Sublist"
begin

section \<open>Console loaders of bn\_falkon/utils/customization.py\<close>

subsection \<open>Strings and exceptions\<close>

text \<open>
  A Python \<open>str\<close> is a sequence of Unicode code points and \<open>len\<close> counts code points,
  while a HOL \<open>char\<close> is a byte. The frames of the loaders are not ASCII, so a Python string
  is modelled as the list of its code points. \<open>ascii\<close> embeds an ASCII literal.
\<close>

type_synonym pystr = "nat list"

definition ascii :: "string \<Rightarrow> pystr" where
  "ascii s = map of_char s"

definition CR :: nat where "CR = 0x0D"
definition NL :: nat where "NL = 0x0A"
definition SP :: nat where "SP = 0x20"
definition ESC :: nat where "ESC = 0x1B"
definition BLACK_CIRCLE :: nat where "BLACK_CIRCLE = 0x25CF"

text \<open>
  The exceptions raised by the statements of the module. \<open>KeyboardInterrupt\<close> derives from
  \<open>BaseException\<close> only; every other constructor is a class derived from \<open>Exception\<close>.
  \<open>OtherException\<close> carries \<open>str(e)\<close> of a fault raised by the environment
  (\<open>print\<close> on a broken stream, \<open>sleep\<close> on a delay that is not a number). No statement
  of the module raises \<open>SystemExit\<close> or \<open>GeneratorExit\<close>, the other classes outside
  \<open>Exception\<close>; they are not part of the model.
\<close>

datatype exn =
    KeyboardInterrupt
  | ValueError pystr
  | IndexError
  | ZeroDivisionError
  | OtherException pystr

fun str :: "exn \<Rightarrow> pystr" where
  "str KeyboardInterrupt = []"
| "str (ValueError m) = m"
| "str IndexError = ascii ''list index out of range''"
| "str ZeroDivisionError = ascii ''integer modulo by zero''"
| "str (OtherException m) = m"

text \<open>\<open>xs[i]\<close> for a non-negative index: out of range raises \<open>IndexError\<close>.\<close>

definition getitem :: "'a list \<Rightarrow> nat \<Rightarrow> exn + 'a" where
  "getitem xs i = (if i < length xs then Inr (xs ! i) else Inl IndexError)"

text \<open>\<open>s.split(sep)\<close> for a separator of one character: empty pieces are kept.\<close>

fun split :: "pystr \<Rightarrow> nat \<Rightarrow> pystr list" where
  "split [] sep = [[]]"
| "split (c # cs) sep =
     (if c = sep then [] # split cs sep
      else (case split cs sep of [] \<Rightarrow> [[c]] | w # ws \<Rightarrow> (c # w) # ws))"

subsection \<open>The loader classes and their frames\<close>

text \<open>
  One constructor per class of the module; \<open>Subclass steps\<close> is any further class derived
  from \<open>BaseLoader\<close>, with its own \<open>ANIMATION_STEPS\<close>.
\<close>

datatype loader_class =
    BaseLoader | SimpleLoader | LineLoader | GrowthLoader | CircleLoader | PulseLoader
  | OOOLoader | WaitLoader | RocketLoader | StarLoader | StarsLoader | CircleDigitLoader
  | HourglassLoader | ClockLoader | ArrowLoader | AtomicLoader | DigitLoader
  | BounceLoader | DotLoader | BartLoader
  | Subclass "pystr list"

fun ANIMATION_STEPS :: "loader_class \<Rightarrow> pystr list" where
  "ANIMATION_STEPS BaseLoader = []"
| "ANIMATION_STEPS SimpleLoader = [[0x7C], [0x2F], [0x2B], [0x2D], [0x5C]]"
| "ANIMATION_STEPS LineLoader =
     [[0x28BF], [0x28FB], [0x28FD], [0x28FE], [0x28F7], [0x28EF], [0x28DF], [0x287F]]"
| "ANIMATION_STEPS GrowthLoader = [[0xB7], [0x2022], [0x25CF], [0x2022], [0xB7]]"
| "ANIMATION_STEPS CircleLoader = [[0x25D3], [0x25D1], [0x25D2], [0x25D0]]"
| "ANIMATION_STEPS PulseLoader = [[0x2022], [0x25CB], [0x2022], [0xB7], [0x25CF], [0xB7]]"
| "ANIMATION_STEPS OOOLoader = [[0x30], [0x4F], [0x6F], [0x2B], [0xB7]]"
| "ANIMATION_STEPS WaitLoader = [[0x57], [0x41], [0x49], [0x54]]"
| "ANIMATION_STEPS RocketLoader = [[0x7C], [0x2F], [0x5E], [0x2D], [0x5C], [0x7C], [0x5F]]"
| "ANIMATION_STEPS StarLoader = [[0x2736], [0x2737], [0x2738], [0x2739], [0x273A]]"
| "ANIMATION_STEPS StarsLoader =
     split [0x2729, 0x20, 0x272A, 0x20, 0x272B, 0x20, 0x272C, 0x20, 0x272D, 0x20, 0x272F, 0x20,
            0x2730, 0x20, 0x2605, 0x20, 0x2731, 0x20, 0x2732, 0x20, 0x2733, 0x20, 0x2734, 0x20,
            0x2735, 0x20, 0x2736, 0x20, 0x2737, 0x20, 0x2738, 0x20, 0x2739, 0x20, 0x273A, 0x20,
            0x273B, 0x20, 0x273C, 0x20, 0x273D, 0x20, 0x273E, 0x20, 0x273F, 0x20, 0x2740, 0x20,
            0x2741, 0x20, 0x2742, 0x20, 0x2743, 0x20, 0x2744, 0x20, 0x2745, 0x20, 0x2746, 0x20,
            0x2747, 0x20, 0x2748, 0x20, 0x2749, 0x20, 0x274A, 0x20, 0x274B] SP"
| "ANIMATION_STEPS CircleDigitLoader =
     split [0x2780, 0x20, 0x2781, 0x20, 0x2782, 0x20, 0x2783, 0x20, 0x2784, 0x20, 0x2785, 0x20,
            0x2786, 0x20, 0x2787, 0x20, 0x2788, 0x20, 0x2789] SP"
| "ANIMATION_STEPS HourglassLoader =
     [[0x231B], [0x231B], [0x231B], [0x23F3], [0x23F3], [0x23F3]]"
| "ANIMATION_STEPS ClockLoader = [[0x23F2], [0x231A]]"
| "ANIMATION_STEPS ArrowLoader =
     split [0x25B6, 0x20, 0x25B7, 0x20, 0x25BA, 0x20, 0x25BB, 0x20, 0x25B8, 0x20, 0x25B9] SP"
| "ANIMATION_STEPS AtomicLoader = [[0x260A], [0x260B], [0x260C], [0x260D]]"
| "ANIMATION_STEPS DigitLoader =
     [[0x30], [0x31], [0x32], [0x33], [0x34], [0x35], [0x36], [0x37], [0x38], [0x39]]"
| "ANIMATION_STEPS BounceLoader =
     [[0x3C, 0x2022, 0x20], [0x3C, 0x2022, 0x3E], [0x20, 0x2022, 0x3E], [0x20, 0x2022, 0x20]]"
| "ANIMATION_STEPS DotLoader =
     [[0xB7], [0x2022], [0x2022, 0x2022], [0x2022, 0x2022, 0x2022],
      [0x2022, 0x2022, 0x2022, 0x2022], [0x2022, 0x2022, 0x2022], [0x2022, 0x2022], [0x2022]]"
| "ANIMATION_STEPS BartLoader =
     [[0x5F], [0x2581], [0x2582], [0x2583], [0x2584], [0x2585], [0x2586], [0x2587], [0x2588],
      [0x2587], [0x2586], [0x2585], [0x2584], [0x2583], [0x2582], [0x2581], [0x5F]]"
| "ANIMATION_STEPS (Subclass steps) = steps"

text \<open>The nineteen loader styles that the module defines as subclasses of \<open>BaseLoader\<close>.\<close>

definition subclasses :: "loader_class list" where
  "subclasses =
     [SimpleLoader, LineLoader, GrowthLoader, CircleLoader, PulseLoader, OOOLoader, WaitLoader,
      RocketLoader, StarLoader, StarsLoader, CircleDigitLoader, HourglassLoader, ClockLoader,
      ArrowLoader, AtomicLoader, DigitLoader, BounceLoader, DotLoader, BartLoader]"

definition VALID_POSITIONS :: "pystr list" where
  "VALID_POSITIONS = [ascii ''front'', ascii ''end'']"

subsection \<open>Construction\<close>

text \<open>
  The object after \<open>__init__\<close>: its class and the four entries of \<open>_config\<close> (\<open>end\<close> is a
  keyword of Isabelle, so the entry is \<open>end_text\<close>). The delay is only ever handed to
  \<open>sleep\<close>. The flag \<open>_done\<close> and the thread belong to the running state below.
\<close>

record loader =
  cls :: loader_class
  desc :: pystr
  end_text :: pystr
  timeout :: real
  position :: pystr

definition init :: "loader_class \<Rightarrow> pystr \<Rightarrow> pystr \<Rightarrow> real \<Rightarrow> pystr \<Rightarrow> exn + loader" where
  "init c d e t p =
     (if p \<notin> set VALID_POSITIONS then
        Inl (ValueError (ascii ''Invalid position: '' @ p @
                         ascii ''. Choose either 'front' or 'end'.''))
      else if ANIMATION_STEPS c = [] then
        Inl (ValueError
          (ascii ''ANIMATION_STEPS must be defined in derived classes and cannot be empty.''))
      else Inr \<lparr>cls = c, desc = d, end_text = e, timeout = t, position = p\<rparr>)"

text \<open>The defaults of the keyword arguments.\<close>

definition default_loader :: "loader_class \<Rightarrow> exn + loader" where
  "default_loader c = init c (ascii ''Loading...'') (ascii ''Done!'') (1 / 10) (ascii ''front'')"

subsection \<open>The texts that are printed\<close>

text \<open>
  The characters written by the \<open>print\<close> of one pass of the loop of \<open>_animate\<close>
  (\<open>end=""\<close>, so no newline): a carriage return, then frame, space, description when the
  position is "front", else description, space, frame. Only the chosen branch of the
  conditional expression is evaluated; each reads \<open>ANIMATION_STEPS[step_count]\<close>.
\<close>

definition redraw_text :: "loader \<Rightarrow> nat \<Rightarrow> exn + pystr" where
  "redraw_text l step_count =
     (case (if position l = ascii ''front'' then
              (case getitem (ANIMATION_STEPS (cls l)) step_count of
                 Inl e \<Rightarrow> Inl e | Inr frame \<Rightarrow> Inr (frame, desc l))
            else
              (case getitem (ANIMATION_STEPS (cls l)) step_count of
                 Inl e \<Rightarrow> Inl e | Inr frame \<Rightarrow> Inr (desc l, frame)))
      of Inl e \<Rightarrow> Inl e
       | Inr (prefix', suffix') \<Rightarrow> Inr (CR # prefix' @ [SP] @ suffix'))"

text \<open>\<open>(step_count + 1) % len(self.ANIMATION_STEPS)\<close>: the modulus zero raises.\<close>

definition advance :: "loader \<Rightarrow> nat \<Rightarrow> exn + nat" where
  "advance l step_count =
     (if length (ANIMATION_STEPS (cls l)) = 0 then Inl ZeroDivisionError
      else Inr ((step_count + 1) mod length (ANIMATION_STEPS (cls l))))"

text \<open>The step counter after \<open>n\<close> passes of the loop.\<close>

fun advance_n :: "loader \<Rightarrow> nat \<Rightarrow> nat \<Rightarrow> exn + nat" where
  "advance_n l 0 step_count = Inr step_count"
| "advance_n l (Suc n) step_count =
     (case advance l step_count of Inl e \<Rightarrow> Inl e | Inr k \<Rightarrow> advance_n l n k)"

text \<open>The first \<open>print\<close> of \<open>__exit__\<close> (\<open>end=""\<close>): a carriage return and the spaces.\<close>

definition erase_text :: "loader \<Rightarrow> exn + pystr" where
  "erase_text l =
     (case getitem (ANIMATION_STEPS (cls l)) 0 of
        Inl e \<Rightarrow> Inl e
      | Inr frame \<Rightarrow> Inr (CR # replicate (length (desc l) + length frame + 1) SP))"

text \<open>
  The text of the second \<open>print\<close> of \<open>__exit__\<close>: carriage return, the escape sequence for
  green, the marker and two spaces, the end text, the escape sequence that resets the
  colour. \<open>print\<close> writes this text and then, as a second write, the newline.
\<close>

definition completion_text :: "loader \<Rightarrow> pystr" where
  "completion_text l =
     CR # ESC # ascii ''[0;32m'' @ [BLACK_CIRCLE, SP, SP] @ end_text l @ ESC # ascii ''[0m''"

text \<open>The \<open>print\<close> of the handler of \<open>Exception\<close> in \<open>_animate\<close>.\<close>

definition error_text :: "exn \<Rightarrow> pystr" where
  "error_text e = ascii ''Animation thread error: '' @ str e @ [NL]"

subsection \<open>The caller and the animation thread\<close>

text \<open>
  Standard output is the list of the writes to it, in the order they happen, each with the
  \<open>print\<close> that made it (the loop, the two of \<open>__exit__\<close>, the exception handler) and the
  characters written. \<open>print\<close> writes its text and then its \<open>end\<close>: with \<open>end=""\<close> (the loop,
  the erasure) that is one write, and for the completion line two, the text and the
  newline, between which the thread may write. The line of the exception handler is kept as
  one entry.
\<close>

datatype printed = Redraw pystr | Erase pystr | Completion pystr | ErrorLog pystr

fun is_Completion :: "printed \<Rightarrow> bool" where
  "is_Completion (Completion t) = True"
| "is_Completion w = False"

text \<open>
  The next statement of the thread that runs \<open>_animate\<close>: the check of \<open>_done\<close> under the
  lock, the \<open>print\<close>, the \<open>sleep\<close>, the update of \<open>step_count\<close>; and the next statement of
  the caller: \<open>__enter__\<close>, then in \<open>__exit__\<close> the assignment of \<open>_done\<close> under the lock,
  the write of the erasure, the two writes of the completion line (text, newline) and the
  \<open>join\<close>. The body of the \<open>with\<close> statement lies between \<open>Enter\<close> and \<open>SetDone\<close> and does not
  touch the loader.
\<close>

datatype thread_pc = NotStarted | Check | Print | Sleep | Advance | Exited

datatype caller_pc =
  Enter | SetDone | ClearLine | PrintEnd | PrintNewline | Join | Returned | Raised exn

record state =
  done_flag :: bool
  step_count :: nat
  thread :: thread_pc
  caller :: caller_pc
  stdout :: "printed list"

text \<open>After \<open>__init__\<close>: \<open>_done\<close> is False and no thread exists.\<close>

definition initial :: state where
  "initial = \<lparr>done_flag = False, step_count = 0, thread = NotStarted, caller = Enter, stdout = []\<rparr>"

text \<open>
  The two \<open>except\<close> clauses of \<open>_animate\<close>, in their order: \<open>KeyboardInterrupt\<close> passes,
  every class derived from \<open>Exception\<close> is printed. Either way \<open>_animate\<close> returns.
\<close>

fun except :: "exn \<Rightarrow> state \<Rightarrow> state" where
  "except KeyboardInterrupt s = s\<lparr>thread := Exited\<rparr>"
| "except e s = s\<lparr>stdout := stdout s @ [ErrorLog (error_text e)], thread := Exited\<rparr>"

text \<open>
  One statement of the thread. The check and the assignment of \<open>_done\<close> hold the lock, so
  each is one step; the lock is released before the \<open>print\<close>. \<open>None\<close>: the thread has no
  statement to run.
\<close>

definition thread_step :: "loader \<Rightarrow> state \<Rightarrow> state option" where
  "thread_step l s =
     (case thread s of
        NotStarted \<Rightarrow> None
      | Check \<Rightarrow> Some (if done_flag s then s\<lparr>thread := Exited\<rparr> else s\<lparr>thread := Print\<rparr>)
      | Print \<Rightarrow>
          Some (case redraw_text l (step_count s) of
                  Inl e \<Rightarrow> except e s
                | Inr t \<Rightarrow> s\<lparr>stdout := stdout s @ [Redraw t], thread := Sleep\<rparr>)
      | Sleep \<Rightarrow> Some (s\<lparr>thread := Advance\<rparr>)
      | Advance \<Rightarrow>
          Some (case advance l (step_count s) of
                  Inl e \<Rightarrow> except e s
                | Inr k \<Rightarrow> s\<lparr>step_count := k, thread := Check\<rparr>)
      | Exited \<Rightarrow> None)"

text \<open>
  One statement of the caller, when it does not fail in the environment. \<open>join\<close> blocks
  (\<open>None\<close>) until the thread has exited; an exception of \<open>__exit__\<close> reaches the caller
  (\<open>Raised\<close>), and then neither the rest of \<open>__exit__\<close> nor the \<open>join\<close> runs.
\<close>

definition caller_step :: "loader \<Rightarrow> state \<Rightarrow> state option" where
  "caller_step l s =
     (case caller s of
        Enter \<Rightarrow> Some (s\<lparr>done_flag := False, step_count := 0, thread := Check, caller := SetDone\<rparr>)
      | SetDone \<Rightarrow> Some (s\<lparr>done_flag := True, caller := ClearLine\<rparr>)
      | ClearLine \<Rightarrow>
          Some (case erase_text l of
                  Inl e \<Rightarrow> s\<lparr>caller := Raised e\<rparr>
                | Inr t \<Rightarrow> s\<lparr>stdout := stdout s @ [Erase t], caller := PrintEnd\<rparr>)
      | PrintEnd \<Rightarrow>
          Some (s\<lparr>stdout := stdout s @ [Completion (completion_text l)],
                  caller := PrintNewline\<rparr>)
      | PrintNewline \<Rightarrow> Some (s\<lparr>stdout := stdout s @ [Completion [NL]], caller := Join\<rparr>)
      | Join \<Rightarrow> (if thread s = Exited then Some (s\<lparr>caller := Returned\<rparr>) else None)
      | Returned \<Rightarrow> None
      | Raised e \<Rightarrow> None)"

text \<open>
  What happens next: the caller runs a statement, the thread runs a statement, the
  statement the thread is at raises \<open>e\<close> (a fault of \<open>print\<close> or \<open>sleep\<close>, or an interruption
  delivered to the thread) inside the \<open>try\<close>, or a \<open>print\<close> of \<open>__exit__\<close> raises \<open>e\<close>
  (\<open>ExitFault\<close>): the write the caller is at (the stream is closed, or cannot encode the
  marker) or the flush after the write before it. \<open>__exit__\<close> has no handler, so that
  exception reaches the caller with nothing written by the failed write.
\<close>

datatype event = Caller | Thread | Fault exn | ExitFault exn

definition step :: "loader \<Rightarrow> event \<Rightarrow> state \<Rightarrow> state option" where
  "step l ev s =
     (case ev of
        Caller \<Rightarrow> caller_step l s
      | Thread \<Rightarrow> thread_step l s
      | Fault e \<Rightarrow> (if thread s \<in> {Check, Print, Sleep, Advance} then Some (except e s) else None)
      | ExitFault e \<Rightarrow>
          (if caller s \<in> {ClearLine, PrintEnd, PrintNewline, Join}
           then Some (s\<lparr>caller := Raised e\<rparr>) else None))"

fun run :: "loader \<Rightarrow> event list \<Rightarrow> state \<Rightarrow> state option" where
  "run l [] s = Some s"
| "run l (ev # evs) s = (case step l ev s of None \<Rightarrow> None | Some s' \<Rightarrow> run l evs s')"

section \<open>Auxiliary facts\<close>

lemma replicate_num: "replicate (numeral k) x = x # replicate (pred_numeral k) x"
  by (simp add: numeral_eq_Suc)

lemma VALID_POSITIONS_set: "set VALID_POSITIONS = {ascii ''front'', ascii ''end''}"
  by (simp add: VALID_POSITIONS_def)

lemma init_Inr_iff:
  "init c d e t p = Inr l \<longleftrightarrow>
     p \<in> set VALID_POSITIONS \<and> ANIMATION_STEPS c \<noteq> [] \<and>
     l = \<lparr>cls = c, desc = d, end_text = e, timeout = t, position = p\<rparr>"
  by (auto simp: init_def)

lemma init_steps_nonempty: "init c d e t p = Inr l \<Longrightarrow> ANIMATION_STEPS (cls l) \<noteq> []"
  by (auto simp: init_Inr_iff)

lemma init_fields:
  "init c d e t p = Inr l \<Longrightarrow> cls l = c \<and> desc l = d \<and> end_text l = e \<and> position l = p"
  by (auto simp: init_Inr_iff)

lemma init_position: "init c d e t p = Inr l \<Longrightarrow> p = ascii ''front'' \<or> p = ascii ''end''"
  by (auto simp: init_Inr_iff VALID_POSITIONS_def)

lemma front_neq_end: "ascii ''end'' \<noteq> ascii ''front''"
  by (simp add: ascii_def)

lemma redraw_text_front:
  "position l = ascii ''front'' \<Longrightarrow> i < length (ANIMATION_STEPS (cls l)) \<Longrightarrow>
   redraw_text l i = Inr (CR # ANIMATION_STEPS (cls l) ! i @ [SP] @ desc l)"
  by (simp add: redraw_text_def getitem_def)

lemma redraw_text_end:
  "position l = ascii ''end'' \<Longrightarrow> i < length (ANIMATION_STEPS (cls l)) \<Longrightarrow>
   redraw_text l i = Inr (CR # desc l @ [SP] @ ANIMATION_STEPS (cls l) ! i)"
  by (simp add: redraw_text_def getitem_def front_neq_end)

lemma erase_text_width:
  "init c d e t p = Inr l \<Longrightarrow>
   erase_text l = Inr (CR # replicate (length d + length (ANIMATION_STEPS c ! 0) + 1) SP)"
  by (auto simp: init_Inr_iff erase_text_def getitem_def)

lemma advance_n_mod:
  "ANIMATION_STEPS (cls l) \<noteq> [] \<Longrightarrow> i < length (ANIMATION_STEPS (cls l)) \<Longrightarrow>
   advance_n l n i = Inr ((i + n) mod length (ANIMATION_STEPS (cls l)))"
proof (induction n arbitrary: i)
  case 0
  then show ?case by simp
next
  case (Suc n)
  let ?N = "length (ANIMATION_STEPS (cls l))"
  have pos: "0 < ?N" using Suc.prems(1) by simp
  have "advance_n l (Suc n) i = advance_n l n ((i + 1) mod ?N)"
    using pos by (simp add: advance_def)
  also have "\<dots> = Inr (((i + 1) mod ?N + n) mod ?N)"
    using Suc.IH [of "(i + 1) mod ?N"] Suc.prems(1) pos by simp
  also have "((i + 1) mod ?N + n) mod ?N = (i + Suc n) mod ?N"
    by (simp add: mod_add_left_eq)
  finally show ?case .
qed

lemma except_fields [simp]:
  "step_count (except e s) = step_count s"
  "caller (except e s) = caller s"
  "done_flag (except e s) = done_flag s"
  "thread (except e s) = Exited"
  by (cases e; simp)+

lemma except_Completion [simp]:
  "filter is_Completion (stdout (except e s)) = filter is_Completion (stdout s)"
  by (cases e) simp_all

section \<open>Invariants of the running loader\<close>

lemma run_invariant:
  assumes "\<And>ev s s'. P s \<Longrightarrow> step l ev s = Some s' \<Longrightarrow> P s'"
    and "P s" and "run l evs s = Some s'"
  shows "P s'"
  using assms(2,3)
proof (induction evs arbitrary: s)
  case Nil
  then show ?case by simp
next
  case (Cons ev evs)
  from Cons.prems(2) obtain s1 where s1: "step l ev s = Some s1" and r: "run l evs s1 = Some s'"
    by (auto split: option.splits)
  from assms(1) [OF Cons.prems(1) s1] have "P s1" .
  then show ?case using r by (rule Cons.IH)
qed

lemma step_step_count:
  assumes "ANIMATION_STEPS (cls l) \<noteq> []" and "step_count s < length (ANIMATION_STEPS (cls l))"
    and "step l ev s = Some s'"
  shows "step_count s' < length (ANIMATION_STEPS (cls l))"
  using assms
  by (auto simp: step_def thread_step_def caller_step_def advance_def
           split: event.splits thread_pc.splits caller_pc.splits sum.splits if_splits)

lemma step_Raised:
  assumes "ANIMATION_STEPS (cls l) \<noteq> []" and "step l ev s = Some s'"
    and "caller s' = Raised x"
  shows "caller s = Raised x \<or> ev = ExitFault x"
  using assms
  by (auto simp: step_def thread_step_def caller_step_def erase_text_def getitem_def
           split: event.splits thread_pc.splits caller_pc.splits sum.splits if_splits)

lemma thread_step_Completion:
  assumes "thread_step l s = Some s'"
  shows "caller s' = caller s \<and>
         filter is_Completion (stdout s') = filter is_Completion (stdout s)"
  using assms by (auto simp: thread_step_def split: thread_pc.splits sum.splits if_splits)

lemma step_Completion:
  assumes "filter is_Completion (stdout s) \<in>
             (case caller s of
                PrintNewline \<Rightarrow> {[Completion (completion_text l)]}
              | Join \<Rightarrow> {[Completion (completion_text l), Completion [NL]]}
              | Returned \<Rightarrow> {[Completion (completion_text l), Completion [NL]]}
              | Raised x \<Rightarrow> {[], [Completion (completion_text l)],
                             [Completion (completion_text l), Completion [NL]]}
              | _ \<Rightarrow> {[]})"
    and "step l ev s = Some s'"
  shows "filter is_Completion (stdout s') \<in>
           (case caller s' of
              PrintNewline \<Rightarrow> {[Completion (completion_text l)]}
            | Join \<Rightarrow> {[Completion (completion_text l), Completion [NL]]}
            | Returned \<Rightarrow> {[Completion (completion_text l), Completion [NL]]}
            | Raised x \<Rightarrow> {[], [Completion (completion_text l)],
                           [Completion (completion_text l), Completion [NL]]}
            | _ \<Rightarrow> {[]})"
proof (cases ev)
  case Caller
  with assms(2) have c: "caller_step l s = Some s'"
    by (simp add: step_def)
  show ?thesis
  proof (cases "caller s")
    case ClearLine
    with c assms(1) show ?thesis
      by (cases "erase_text l") (auto simp: caller_step_def)
  qed (use c assms(1) in \<open>auto simp: caller_step_def split: if_splits\<close>)
next
  case Thread
  with assms(2) have "thread_step l s = Some s'"
    by (simp add: step_def)
  from thread_step_Completion [OF this] assms(1) show ?thesis
    by simp
next
  case (Fault e)
  with assms(2) have "s' = except e s"
    by (simp add: step_def split: if_splits)
  with assms(1) show ?thesis
    by simp
next
  case (ExitFault e)
  with assms(2) have s': "s' = s\<lparr>caller := Raised e\<rparr>"
    and c: "caller s \<in> {ClearLine, PrintEnd, PrintNewline, Join}"
    by (simp_all add: step_def split: if_splits)
  from c assms(1) show ?thesis
    unfolding s' by auto
qed

lemma step_Returned:
  assumes "caller s = Returned \<longrightarrow> thread s = Exited" and "step l ev s = Some s'"
  shows "caller s' = Returned \<longrightarrow> thread s' = Exited"
  using assms
  by (auto simp: step_def thread_step_def caller_step_def
           split: event.splits thread_pc.splits caller_pc.splits sum.splits if_splits)

lemma reachable_step_count:
  assumes "ANIMATION_STEPS (cls l) \<noteq> []" and "run l evs initial = Some s"
  shows "step_count s < length (ANIMATION_STEPS (cls l))"
proof (rule run_invariant [where P = "\<lambda>s. step_count s < length (ANIMATION_STEPS (cls l))"])
  show "step_count initial < length (ANIMATION_STEPS (cls l))"
    using assms(1) by (simp add: initial_def)
  show "run l evs initial = Some s" by (rule assms(2))
qed (rule step_step_count [OF assms(1)])

lemma run_Raised:
  assumes "ANIMATION_STEPS (cls l) \<noteq> []"
  shows "run l evs s = Some s' \<Longrightarrow> caller s' = Raised x \<Longrightarrow>
         caller s = Raised x \<or> ExitFault x \<in> set evs"
proof (induction evs arbitrary: s)
  case Nil
  then show ?case by simp
next
  case (Cons ev evs)
  from Cons.prems(1) obtain s1 where s1: "step l ev s = Some s1" and r: "run l evs s1 = Some s'"
    by (auto split: option.splits)
  from Cons.IH [OF r Cons.prems(2)] have "caller s1 = Raised x \<or> ExitFault x \<in> set evs" .
  then show ?case
  proof
    assume "caller s1 = Raised x"
    from step_Raised [OF assms s1 this] show ?thesis by auto
  next
    assume "ExitFault x \<in> set evs"
    then show ?thesis by simp
  qed
qed

lemma reachable_Raised:
  assumes "ANIMATION_STEPS (cls l) \<noteq> []" and "run l evs initial = Some s"
    and "caller s = Raised x"
  shows "ExitFault x \<in> set evs"
  using run_Raised [OF assms] by (simp add: initial_def)

lemma reachable_Completion:
  assumes "run l evs initial = Some s"
  shows "filter is_Completion (stdout s) \<in>
           (case caller s of
              PrintNewline \<Rightarrow> {[Completion (completion_text l)]}
            | Join \<Rightarrow> {[Completion (completion_text l), Completion [NL]]}
            | Returned \<Rightarrow> {[Completion (completion_text l), Completion [NL]]}
            | Raised x \<Rightarrow> {[], [Completion (completion_text l)],
                           [Completion (completion_text l), Completion [NL]]}
            | _ \<Rightarrow> {[]})"
proof (rule run_invariant
    [where P = "\<lambda>s. filter is_Completion (stdout s) \<in>
           (case caller s of
              PrintNewline \<Rightarrow> {[Completion (completion_text l)]}
            | Join \<Rightarrow> {[Completion (completion_text l), Completion [NL]]}
            | Returned \<Rightarrow> {[Completion (completion_text l), Completion [NL]]}
            | Raised x \<Rightarrow> {[], [Completion (completion_text l)],
                           [Completion (completion_text l), Completion [NL]]}
            | _ \<Rightarrow> {[]})"])
  show "filter is_Completion (stdout initial) \<in>
           (case caller initial of
              PrintNewline \<Rightarrow> {[Completion (completion_text l)]}
            | Join \<Rightarrow> {[Completion (completion_text l), Completion [NL]]}
            | Returned \<Rightarrow> {[Completion (completion_text l), Completion [NL]]}
            | Raised x \<Rightarrow> {[], [Completion (completion_text l)],
                           [Completion (completion_text l), Completion [NL]]}
            | _ \<Rightarrow> {[]})"
    by (simp add: initial_def)
  show "run l evs initial = Some s" by (rule assms)
qed (rule step_Completion)

lemma reachable_Completion_prefix:
  assumes "run l evs initial = Some s"
  shows "prefix (filter is_Completion (stdout s))
           [Completion (completion_text l), Completion [NL]]"
  using reachable_Completion [OF assms] by (cases "caller s") auto

lemma reachable_Completion_Join:
  assumes "run l evs initial = Some s" and "caller s \<in> {Join, Returned}"
  shows "filter is_Completion (stdout s) = [Completion (completion_text l), Completion [NL]]"
  using reachable_Completion [OF assms(1)] assms(2) by auto

lemma reachable_Returned:
  assumes "run l evs initial = Some s" and "caller s = Returned"
  shows "thread s = Exited"
proof -
  have "caller s = Returned \<longrightarrow> thread s = Exited"
  proof (rule run_invariant [where P = "\<lambda>s. caller s = Returned \<longrightarrow> thread s = Exited"])
    show "caller initial = Returned \<longrightarrow> thread initial = Exited"
      by (simp add: initial_def)
    show "run l evs initial = Some s" by (rule assms(1))
  qed (rule step_Returned)
  with assms(2) show ?thesis by simp
qed

text \<open>
  Once \<open>__exit__\<close> has returned, the thread has exited: no statement of the loader is left
  to run, so nothing more is written.
\<close>

lemma returned_quiescent:
  assumes "run l evs initial = Some s" and "caller s = Returned"
  shows "step l ev s = None"
  using reachable_Returned [OF assms] assms(2)
  by (cases ev) (simp_all add: step_def thread_step_def caller_step_def)

lemma returned_final:
  assumes "run l evs initial = Some s" and "caller s = Returned" and "run l evs' s = Some s'"
  shows "s' = s"
  using returned_quiescent [OF assms(1,2)] assms(3) by (cases evs') simp_all

text \<open>Passes of the loop while \<open>_done\<close> is False: four statements of the thread each.\<close>

lemma run_append:
  "run l (evs @ evs') s = (case run l evs s of None \<Rightarrow> None | Some s' \<Rightarrow> run l evs' s')"
  by (induction evs arbitrary: s) (auto split: option.splits)

lemma run_pass:
  assumes "ANIMATION_STEPS (cls l) \<noteq> []" and "thread s = Check" and "\<not> done_flag s"
    and "step_count s < length (ANIMATION_STEPS (cls l))"
  shows "\<exists>t. redraw_text l (step_count s) = Inr t \<and>
             run l [Thread, Thread, Thread, Thread] s =
               Some (s\<lparr>stdout := stdout s @ [Redraw t],
                       step_count := (step_count s + 1) mod length (ANIMATION_STEPS (cls l))\<rparr>)"
proof -
  have "\<exists>t. redraw_text l (step_count s) = Inr t"
    using assms(4) by (simp add: redraw_text_def getitem_def)
  then obtain t where t: "redraw_text l (step_count s) = Inr t" ..
  have a: "advance l (step_count s) =
      Inr ((step_count s + 1) mod length (ANIMATION_STEPS (cls l)))"
    using assms(1) by (simp add: advance_def)
  have "run l [Thread, Thread, Thread, Thread] s =
      Some (s\<lparr>stdout := stdout s @ [Redraw t],
              step_count := (step_count s + 1) mod length (ANIMATION_STEPS (cls l))\<rparr>)"
    using assms(2,3) t a by (simp add: step_def thread_step_def)
  with t show ?thesis by blast
qed

lemma run_passes:
  assumes "ANIMATION_STEPS (cls l) \<noteq> []"
  shows "thread s = Check \<Longrightarrow> \<not> done_flag s \<Longrightarrow>
         step_count s < length (ANIMATION_STEPS (cls l)) \<Longrightarrow>
         \<exists>s'. run l (concat (replicate n [Thread, Thread, Thread, Thread])) s = Some s' \<and>
              thread s' = Check \<and> \<not> done_flag s' \<and>
              advance_n l n (step_count s) = Inr (step_count s')"
proof (induction n arbitrary: s)
  case 0
  then show ?case by simp
next
  case (Suc n)
  let ?N = "length (ANIMATION_STEPS (cls l))"
  from run_pass [OF assms Suc.prems] obtain t where
    p: "run l [Thread, Thread, Thread, Thread] s =
          Some (s\<lparr>stdout := stdout s @ [Redraw t], step_count := (step_count s + 1) mod ?N\<rparr>)"
    by blast
  let ?s1 = "s\<lparr>stdout := stdout s @ [Redraw t], step_count := (step_count s + 1) mod ?N\<rparr>"
  have pos: "0 < ?N" using assms by simp
  have "thread ?s1 = Check" "\<not> done_flag ?s1" "step_count ?s1 < ?N"
    using Suc.prems pos by simp_all
  from Suc.IH [OF this] obtain s' where
    r: "run l (concat (replicate n [Thread, Thread, Thread, Thread])) ?s1 = Some s'"
    and q: "thread s' = Check" "\<not> done_flag s'"
    and a: "advance_n l n (step_count ?s1) = Inr (step_count s')"
    by blast
  have "run l (concat (replicate (Suc n) [Thread, Thread, Thread, Thread])) s =
        run l ([Thread, Thread, Thread, Thread] @
               concat (replicate n [Thread, Thread, Thread, Thread])) s"
    by simp
  also have "\<dots> = Some s'"
    unfolding run_append p using r by simp
  finally have r': "run l (concat (replicate (Suc n) [Thread, Thread, Thread, Thread])) s = Some s'" .
  have "advance_n l (Suc n) (step_count s) = Inr (step_count s')"
    using a pos by (simp add: advance_def)
  with r' q show ?case by blast
qed

section \<open>Construction errors\<close>

text \<open>
  C2: for every position outside "front" and "end", whatever the class (and so whatever its
  frames), the description, the end text and the delay, \<open>__init__\<close> raises \<open>ValueError\<close>.
\<close>

theorem init_invalid_position:
  assumes "p \<notin> {ascii ''front'', ascii ''end''}"
  shows "init c d e t p =
           Inl (ValueError (ascii ''Invalid position: '' @ p @
                            ascii ''. Choose either 'front' or 'end'.''))"
  using assms by (simp add: init_def VALID_POSITIONS_def)

theorem init_invalid_position_witness:
  "ascii ''middle'' \<notin> {ascii ''front'', ascii ''end''} \<and>
   init LineLoader (ascii ''Loading...'') (ascii ''Done!'') (1 / 10) (ascii ''middle'') =
     Inl (ValueError (ascii ''Invalid position: '' @ ascii ''middle'' @
                      ascii ''. Choose either 'front' or 'end'.''))"
proof -
  have h: "ascii ''middle'' \<notin> {ascii ''front'', ascii ''end''}"
    by (simp add: ascii_def)
  show ?thesis
    using h init_invalid_position [OF h, of LineLoader "ascii ''Loading...''" "ascii ''Done!''" "1 / 10"]
    by simp
qed

text \<open>
  C3: when the frame sequence of the class is empty, \<open>__init__\<close> raises \<open>ValueError\<close> for all
  arguments (the position check comes first, so the message is that of the position when the
  position is invalid too), and so never returns a loader.
\<close>

theorem init_empty_steps:
  assumes "ANIMATION_STEPS c = []"
  shows "(\<exists>m. init c d e t p = Inl (ValueError m)) \<and> (\<forall>l. init c d e t p \<noteq> Inr l)"
  using assms by (simp add: init_def)

theorem init_empty_steps_witness:
  "ANIMATION_STEPS BaseLoader = [] \<and>
   (\<exists>m. init BaseLoader (ascii ''Loading...'') (ascii ''Done!'') (1 / 10) (ascii ''front'') =
           Inl (ValueError m)) \<and>
   (\<forall>l. init BaseLoader (ascii ''Loading...'') (ascii ''Done!'') (1 / 10) (ascii ''front'') \<noteq>
           Inr l)"
proof -
  have h: "ANIMATION_STEPS BaseLoader = []"
    by simp
  show ?thesis
    using h init_empty_steps [OF h, of "ascii ''Loading...''" "ascii ''Done!''" "1 / 10" "ascii ''front''"]
    by simp
qed

section \<open>The loop of the animation thread\<close>

text \<open>
  C4: for a constructed loader, the pass of the loop that is at its \<open>print\<close> with the step
  counter at a frame of the sequence writes a carriage return (the redraw in place) followed
  by frame, one space, description when the position is "front", and by description, one
  space, frame when the position is "end"; the position is one of the two.
\<close>

theorem redraw_line_format:
  assumes "init c d e t p = Inr l" and "thread s = Print"
    and "step_count s < length (ANIMATION_STEPS c)"
  shows "(p = ascii ''front'' \<longrightarrow>
            step l Thread s =
              Some (s\<lparr>stdout := stdout s @ [Redraw (CR # ANIMATION_STEPS c ! step_count s @ [SP] @ d)],
                      thread := Sleep\<rparr>)) \<and>
         (p = ascii ''end'' \<longrightarrow>
            step l Thread s =
              Some (s\<lparr>stdout := stdout s @ [Redraw (CR # d @ [SP] @ ANIMATION_STEPS c ! step_count s)],
                      thread := Sleep\<rparr>)) \<and>
         (p = ascii ''front'' \<or> p = ascii ''end'')"
proof -
  from assms(1) have f: "cls l = c" "desc l = d" "position l = p"
    by (simp_all add: init_fields)
  have "p = ascii ''front'' \<Longrightarrow> ?thesis"
    using assms(2,3) f redraw_text_front [of l "step_count s"]
    by (simp add: step_def thread_step_def front_neq_end [symmetric])
  moreover have "p = ascii ''end'' \<Longrightarrow> ?thesis"
    using assms(2,3) f redraw_text_end [of l "step_count s"]
    by (simp add: step_def thread_step_def front_neq_end)
  ultimately show ?thesis
    using init_position [OF assms(1)] by blast
qed

theorem redraw_line_format_witness:
  "init LineLoader (ascii ''Working'') (ascii ''Done!'') (1 / 100) (ascii ''front'') =
     Inr \<lparr>cls = LineLoader, desc = ascii ''Working'', end_text = ascii ''Done!'',
          timeout = 1 / 100, position = ascii ''front''\<rparr> \<and>
   step \<lparr>cls = LineLoader, desc = ascii ''Working'', end_text = ascii ''Done!'',
         timeout = 1 / 100, position = ascii ''front''\<rparr> Thread
        \<lparr>done_flag = False, step_count = 1, thread = Print, caller = SetDone, stdout = []\<rparr> =
     Some \<lparr>done_flag = False, step_count = 1, thread = Sleep, caller = SetDone,
           stdout = [Redraw (CR # [0x28FB] @ [SP] @ ascii ''Working'')]\<rparr> \<and>
   init LineLoader (ascii ''Working'') (ascii ''Done!'') (1 / 100) (ascii ''end'') =
     Inr \<lparr>cls = LineLoader, desc = ascii ''Working'', end_text = ascii ''Done!'',
          timeout = 1 / 100, position = ascii ''end''\<rparr> \<and>
   step \<lparr>cls = LineLoader, desc = ascii ''Working'', end_text = ascii ''Done!'',
         timeout = 1 / 100, position = ascii ''end''\<rparr> Thread
        \<lparr>done_flag = False, step_count = 1, thread = Print, caller = SetDone, stdout = []\<rparr> =
     Some \<lparr>done_flag = False, step_count = 1, thread = Sleep, caller = SetDone,
           stdout = [Redraw (CR # ascii ''Working'' @ [SP] @ [0x28FB])]\<rparr>"
proof -
  let ?s = "\<lparr>done_flag = False, step_count = 1, thread = Print, caller = SetDone, stdout = []\<rparr>"
  have i1: "init LineLoader (ascii ''Working'') (ascii ''Done!'') (1 / 100) (ascii ''front'') =
      Inr \<lparr>cls = LineLoader, desc = ascii ''Working'', end_text = ascii ''Done!'',
           timeout = 1 / 100, position = ascii ''front''\<rparr>"
    by (simp add: init_def VALID_POSITIONS_def)
  have i2: "init LineLoader (ascii ''Working'') (ascii ''Done!'') (1 / 100) (ascii ''end'') =
      Inr \<lparr>cls = LineLoader, desc = ascii ''Working'', end_text = ascii ''Done!'',
           timeout = 1 / 100, position = ascii ''end''\<rparr>"
    by (simp add: init_def VALID_POSITIONS_def)
  have t: "thread ?s = Print" and b: "step_count ?s < length (ANIMATION_STEPS LineLoader)"
    by simp_all
  show ?thesis
    using i1 i2 redraw_line_format [OF i1 t b] redraw_line_format [OF i2 t b]
    by (simp add: front_neq_end)
qed

text \<open>
  C5: for a constructed loader with \<open>N\<close> frames and an index \<open>i\<close> below \<open>N\<close>, one pass of the
  loop takes the step counter from \<open>i\<close> to \<open>(i + 1) mod N\<close>, and \<open>N\<close> passes take it back to
  \<open>i\<close>: both for the expression iterated \<open>N\<close> times and for the thread running \<open>N\<close> passes
  (of four statements each) while \<open>_done\<close> is False.
\<close>

theorem advance_cyclic:
  assumes "init c d e t p = Inr l" and "i < length (ANIMATION_STEPS c)"
  shows "advance l i = Inr ((i + 1) mod length (ANIMATION_STEPS c)) \<and>
         advance_n l (length (ANIMATION_STEPS c)) i = Inr i \<and>
         (\<forall>s. thread s = Advance \<and> step_count s = i \<longrightarrow>
              step l Thread s =
                Some (s\<lparr>step_count := (i + 1) mod length (ANIMATION_STEPS c), thread := Check\<rparr>)) \<and>
         (\<forall>s. thread s = Check \<and> \<not> done_flag s \<and> step_count s = i \<longrightarrow>
              (\<exists>s'. run l (concat (replicate (length (ANIMATION_STEPS c))
                                     [Thread, Thread, Thread, Thread])) s = Some s' \<and>
                    thread s' = Check \<and> step_count s' = i))"
proof -
  from assms(1) have c: "cls l = c"
    by (simp add: init_fields)
  from assms(1) have ne: "ANIMATION_STEPS (cls l) \<noteq> []"
    by (rule init_steps_nonempty)
  have a: "advance l i = Inr ((i + 1) mod length (ANIMATION_STEPS c))"
    using ne c by (simp add: advance_def)
  have n: "advance_n l (length (ANIMATION_STEPS c)) i = Inr i"
    using advance_n_mod [OF ne, of i "length (ANIMATION_STEPS c)"] assms(2) c by simp
  have st: "\<forall>s. thread s = Advance \<and> step_count s = i \<longrightarrow>
        step l Thread s =
          Some (s\<lparr>step_count := (i + 1) mod length (ANIMATION_STEPS c), thread := Check\<rparr>)"
    using a by (simp add: step_def thread_step_def)
  have ps: "\<exists>s'. run l (concat (replicate (length (ANIMATION_STEPS c))
                                   [Thread, Thread, Thread, Thread])) s = Some s' \<and>
                 thread s' = Check \<and> step_count s' = i"
    if s: "thread s = Check" "\<not> done_flag s" "step_count s = i" for s
  proof -
    have b: "step_count s < length (ANIMATION_STEPS (cls l))"
      using s(3) assms(2) c by simp
    from run_passes [OF ne s(1,2) b, of "length (ANIMATION_STEPS c)"] obtain s' where
      r: "run l (concat (replicate (length (ANIMATION_STEPS c))
                          [Thread, Thread, Thread, Thread])) s = Some s'"
      and k: "thread s' = Check"
      and v: "advance_n l (length (ANIMATION_STEPS c)) (step_count s) = Inr (step_count s')"
      by blast
    from v n s(3) have "step_count s' = i"
      by simp
    with r k show ?thesis by blast
  qed
  show ?thesis
    using a n st ps by blast
qed

theorem advance_cyclic_witness:
  "init CircleLoader (ascii ''Loading...'') (ascii ''Done!'') (1 / 10) (ascii ''front'') =
     Inr \<lparr>cls = CircleLoader, desc = ascii ''Loading...'', end_text = ascii ''Done!'',
          timeout = 1 / 10, position = ascii ''front''\<rparr> \<and>
   (3::nat) < length (ANIMATION_STEPS CircleLoader) \<and>
   advance \<lparr>cls = CircleLoader, desc = ascii ''Loading...'', end_text = ascii ''Done!'',
            timeout = 1 / 10, position = ascii ''front''\<rparr> 3 = Inr 0 \<and>
   advance_n \<lparr>cls = CircleLoader, desc = ascii ''Loading...'', end_text = ascii ''Done!'',
              timeout = 1 / 10, position = ascii ''front''\<rparr> 4 3 = Inr 3 \<and>
   step \<lparr>cls = CircleLoader, desc = ascii ''Loading...'', end_text = ascii ''Done!'',
         timeout = 1 / 10, position = ascii ''front''\<rparr> Thread
        \<lparr>done_flag = False, step_count = 3, thread = Advance, caller = SetDone, stdout = []\<rparr> =
     Some \<lparr>done_flag = False, step_count = 0, thread = Check, caller = SetDone, stdout = []\<rparr> \<and>
   (\<exists>s'. run \<lparr>cls = CircleLoader, desc = ascii ''Loading...'', end_text = ascii ''Done!'',
              timeout = 1 / 10, position = ascii ''front''\<rparr>
             (concat (replicate 4 [Thread, Thread, Thread, Thread]))
             \<lparr>done_flag = False, step_count = 3, thread = Check, caller = SetDone, stdout = []\<rparr> =
           Some s' \<and>
         thread s' = Check \<and> step_count s' = 3)"
proof -
  let ?l = "\<lparr>cls = CircleLoader, desc = ascii ''Loading...'', end_text = ascii ''Done!'',
              timeout = 1 / 10, position = ascii ''front''\<rparr>"
  let ?s = "\<lparr>done_flag = False, step_count = 3, thread = Advance, caller = SetDone, stdout = []\<rparr>"
  let ?q = "\<lparr>done_flag = False, step_count = 3, thread = Check, caller = SetDone, stdout = []\<rparr>"
  have i: "init CircleLoader (ascii ''Loading...'') (ascii ''Done!'') (1 / 10) (ascii ''front'') =
      Inr ?l"
    by (simp add: init_def VALID_POSITIONS_def)
  have b: "(3::nat) < length (ANIMATION_STEPS CircleLoader)"
    by simp
  have len: "length (ANIMATION_STEPS CircleLoader) = 4"
    by simp
  note ac = advance_cyclic [OF i b]
  have a: "advance ?l 3 = Inr ((3 + 1) mod length (ANIMATION_STEPS CircleLoader))"
    using ac by blast
  have n: "advance_n ?l (length (ANIMATION_STEPS CircleLoader)) 3 = Inr 3"
    using ac by blast
  have "thread ?s = Advance \<and> step_count ?s = 3 \<longrightarrow>
        step ?l Thread ?s =
          Some (?s\<lparr>step_count := (3 + 1) mod length (ANIMATION_STEPS CircleLoader),
                   thread := Check\<rparr>)"
    using ac by blast
  then have t: "step ?l Thread ?s =
      Some \<lparr>done_flag = False, step_count = 0, thread = Check, caller = SetDone, stdout = []\<rparr>"
    by simp
  have "thread ?q = Check \<and> \<not> done_flag ?q \<and> step_count ?q = 3 \<longrightarrow>
        (\<exists>s'. run ?l (concat (replicate (length (ANIMATION_STEPS CircleLoader))
                                 [Thread, Thread, Thread, Thread])) ?q = Some s' \<and>
              thread s' = Check \<and> step_count s' = 3)"
    using ac by blast
  then have r: "\<exists>s'. run ?l (concat (replicate (length (ANIMATION_STEPS CircleLoader))
                                 [Thread, Thread, Thread, Thread])) ?q = Some s' \<and>
              thread s' = Check \<and> step_count s' = 3"
    by simp
  have a': "advance ?l 3 = Inr 0"
    using a by simp
  show ?thesis
    using i b a' n [unfolded len] t r [unfolded len] by blast
qed

text \<open>
  C8: while the thread is inside the loop, a \<open>KeyboardInterrupt\<close> ends \<open>_animate\<close> with the
  output as it was; any other fault \<open>e\<close> ends it after the one line
  "Animation thread error: " with \<open>str(e)\<close>; in both cases the caller is where it was, the
  thread has exited and has no further statement to run.
\<close>

theorem animate_faults_caught:
  assumes "thread s \<in> {Check, Print, Sleep, Advance}"
  shows "step l (Fault KeyboardInterrupt) s = Some (s\<lparr>thread := Exited\<rparr>) \<and>
         (e \<noteq> KeyboardInterrupt \<longrightarrow>
            step l (Fault e) s =
              Some (s\<lparr>stdout := stdout s @
                                  [ErrorLog (ascii ''Animation thread error: '' @ str e @ [NL])],
                      thread := Exited\<rparr>)) \<and>
         (\<forall>s'. step l (Fault e) s = Some s' \<longrightarrow>
               caller s' = caller s \<and> thread s' = Exited \<and>
               step l Thread s' = None \<and> step l (Fault e) s' = None)"
  using assms by (cases e) (auto simp: step_def thread_step_def error_text_def)

theorem animate_faults_caught_witness:
  "Sleep \<in> {Check, Print, Sleep, Advance} \<and>
   step \<lparr>cls = LineLoader, desc = ascii ''Working'', end_text = ascii ''Done!'',
         timeout = - 1, position = ascii ''front''\<rparr> (Fault KeyboardInterrupt)
        \<lparr>done_flag = False, step_count = 0, thread = Sleep, caller = SetDone,
         stdout = [Redraw (CR # 0x28BF # SP # ascii ''Working'')]\<rparr> =
     Some \<lparr>done_flag = False, step_count = 0, thread = Exited, caller = SetDone,
           stdout = [Redraw (CR # 0x28BF # SP # ascii ''Working'')]\<rparr> \<and>
   step \<lparr>cls = LineLoader, desc = ascii ''Working'', end_text = ascii ''Done!'',
         timeout = - 1, position = ascii ''front''\<rparr>
        (Fault (ValueError (ascii ''sleep length must be non-negative'')))
        \<lparr>done_flag = False, step_count = 0, thread = Sleep, caller = SetDone,
         stdout = [Redraw (CR # 0x28BF # SP # ascii ''Working'')]\<rparr> =
     Some \<lparr>done_flag = False, step_count = 0, thread = Exited, caller = SetDone,
           stdout = [Redraw (CR # 0x28BF # SP # ascii ''Working''),
                     ErrorLog (ascii ''Animation thread error: '' @
                               ascii ''sleep length must be non-negative'' @ [NL])]\<rparr> \<and>
   step \<lparr>cls = LineLoader, desc = ascii ''Working'', end_text = ascii ''Done!'',
         timeout = - 1, position = ascii ''front''\<rparr> Thread
        \<lparr>done_flag = False, step_count = 0, thread = Exited, caller = SetDone,
         stdout = [Redraw (CR # 0x28BF # SP # ascii ''Working''),
                   ErrorLog (ascii ''Animation thread error: '' @
                             ascii ''sleep length must be non-negative'' @ [NL])]\<rparr> = None"
proof -
  let ?l = "\<lparr>cls = LineLoader, desc = ascii ''Working'', end_text = ascii ''Done!'',
              timeout = - 1, position = ascii ''front''\<rparr>"
  let ?s = "\<lparr>done_flag = False, step_count = 0, thread = Sleep, caller = SetDone,
              stdout = [Redraw (CR # 0x28BF # SP # ascii ''Working'')]\<rparr>"
  let ?e = "ValueError (ascii ''sleep length must be non-negative'')"
  let ?s' = "\<lparr>done_flag = False, step_count = 0, thread = Exited, caller = SetDone,
               stdout = [Redraw (CR # 0x28BF # SP # ascii ''Working''),
                         ErrorLog (ascii ''Animation thread error: '' @
                                   ascii ''sleep length must be non-negative'' @ [NL])]\<rparr>"
  have h: "thread ?s \<in> {Check, Print, Sleep, Advance}"
    by simp
  note t = animate_faults_caught [OF h, of ?l ?e]
  from t have k: "step ?l (Fault KeyboardInterrupt) ?s = Some (?s\<lparr>thread := Exited\<rparr>)"
    by blast
  from t have x: "step ?l (Fault ?e) ?s = Some ?s'"
    by simp
  from t have "step ?l (Fault ?e) ?s = Some ?s' \<longrightarrow> step ?l Thread ?s' = None"
    by blast
  with x have n: "step ?l Thread ?s' = None"
    by blast
  show ?thesis
    using k x n by simp
qed

text \<open>
  C10: for a constructed loader, in every state that the caller and the thread can reach
  the step counter is below the number of frames, so \<open>ANIMATION_STEPS[step_count]\<close> and the
  \<open>ANIMATION_STEPS[0]\<close> of \<open>__exit__\<close> return a frame and the texts of the redraw and of the
  erasure are defined; and an exception that \<open>__exit__\<close> raises is one that a \<open>print\<close> of it
  raised, never one of the index read.
\<close>

theorem indexing_in_bounds:
  assumes "init c d e t p = Inr l" and "run l evs initial = Some s"
  shows "step_count s < length (ANIMATION_STEPS c) \<and>
         getitem (ANIMATION_STEPS c) (step_count s) = Inr (ANIMATION_STEPS c ! step_count s) \<and>
         getitem (ANIMATION_STEPS c) 0 = Inr (ANIMATION_STEPS c ! 0) \<and>
         (\<exists>t. redraw_text l (step_count s) = Inr t) \<and>
         (\<exists>t. erase_text l = Inr t) \<and>
         (\<forall>x. caller s = Raised x \<longrightarrow> ExitFault x \<in> set evs)"
proof -
  from assms(1) have c: "cls l = c"
    by (simp add: init_fields)
  from assms(1) have ne: "ANIMATION_STEPS (cls l) \<noteq> []"
    by (rule init_steps_nonempty)
  have b: "step_count s < length (ANIMATION_STEPS c)"
    using reachable_step_count [OF ne assms(2)] c by simp
  have z: "0 < length (ANIMATION_STEPS c)"
    using ne c by simp
  have r: "\<exists>t. redraw_text l (step_count s) = Inr t"
    using b c by (simp add: redraw_text_def getitem_def)
  have x: "\<exists>t. erase_text l = Inr t"
    using z c by (simp add: erase_text_def getitem_def)
  have f: "\<forall>x. caller s = Raised x \<longrightarrow> ExitFault x \<in> set evs"
    using reachable_Raised [OF ne assms(2)] by blast
  show ?thesis
    using b z r x f by (simp add: getitem_def)
qed

theorem indexing_in_bounds_witness:
  "init DigitLoader (ascii ''Loading...'') (ascii ''Done!'') (1 / 10) (ascii ''end'') =
     Inr \<lparr>cls = DigitLoader, desc = ascii ''Loading...'', end_text = ascii ''Done!'',
          timeout = 1 / 10, position = ascii ''end''\<rparr> \<and>
   run \<lparr>cls = DigitLoader, desc = ascii ''Loading...'', end_text = ascii ''Done!'',
        timeout = 1 / 10, position = ascii ''end''\<rparr>
       [Caller, Thread, Thread, Thread, Thread, Thread] initial =
     Some \<lparr>done_flag = False, step_count = 1, thread = Print, caller = SetDone,
           stdout = [Redraw (CR # ascii ''Loading... 0'')]\<rparr> \<and>
   getitem (ANIMATION_STEPS DigitLoader) 1 = Inr (ascii ''1'') \<and>
   getitem (ANIMATION_STEPS DigitLoader) 0 = Inr (ascii ''0'') \<and>
   run \<lparr>cls = DigitLoader, desc = ascii ''Loading...'', end_text = ascii ''Done!'',
        timeout = 1 / 10, position = ascii ''end''\<rparr>
       [Caller, Caller, ExitFault (OtherException (ascii ''I/O operation on closed file.''))]
       initial =
     Some \<lparr>done_flag = True, step_count = 0, thread = Check,
           caller = Raised (OtherException (ascii ''I/O operation on closed file.'')),
           stdout = []\<rparr> \<and>
   ExitFault (OtherException (ascii ''I/O operation on closed file.'')) \<in>
     set [Caller, Caller, ExitFault (OtherException (ascii ''I/O operation on closed file.''))]"
proof -
  let ?l = "\<lparr>cls = DigitLoader, desc = ascii ''Loading...'', end_text = ascii ''Done!'',
              timeout = 1 / 10, position = ascii ''end''\<rparr>"
  let ?s = "\<lparr>done_flag = False, step_count = 1, thread = Print, caller = SetDone,
              stdout = [Redraw (CR # ascii ''Loading... 0'')]\<rparr>"
  let ?x = "OtherException (ascii ''I/O operation on closed file.'')"
  let ?r = "\<lparr>done_flag = True, step_count = 0, thread = Check, caller = Raised ?x, stdout = []\<rparr>"
  have i: "init DigitLoader (ascii ''Loading...'') (ascii ''Done!'') (1 / 10) (ascii ''end'') = Inr ?l"
    by (simp add: init_def VALID_POSITIONS_def)
  have r: "run ?l [Caller, Thread, Thread, Thread, Thread, Thread] initial = Some ?s"
    by (simp add: step_def caller_step_def thread_step_def initial_def redraw_text_def
        advance_def getitem_def ascii_def SP_def CR_def)
  have q: "run ?l [Caller, Caller, ExitFault ?x] initial = Some ?r"
    by (simp add: step_def caller_step_def initial_def)
  have a: "getitem (ANIMATION_STEPS DigitLoader) 1 = Inr (ascii ''1'') \<and>
      getitem (ANIMATION_STEPS DigitLoader) 0 = Inr (ascii ''0'')"
    using indexing_in_bounds [OF i r] by (simp add: ascii_def)
  have "caller ?r = Raised ?x \<longrightarrow> ExitFault ?x \<in> set [Caller, Caller, ExitFault ?x]"
    using indexing_in_bounds [OF i q] by blast
  then have b: "ExitFault ?x \<in> set [Caller, Caller, ExitFault ?x]"
    by simp
  show ?thesis
    using i r q a b by blast
qed

section \<open>Scope exit\<close>

text \<open>
  C6 as stated fails, in two ways. With the default end text, the characters of the
  completion line do not contain the marker, a single space and "Done!" in a row. And when
  the write of the completion text raises (a stream that cannot encode the marker),
  \<open>__exit__\<close> ends with that exception and no completion line is written.
\<close>

theorem completion_line_counterexample:
  "\<not> sublist (BLACK_CIRCLE # SP # ascii ''Done!'')
       (completion_text \<lparr>cls = LineLoader, desc = ascii ''Working'', end_text = ascii ''Done!'',
                         timeout = 1 / 100, position = ascii ''front''\<rparr> @ [NL]) \<and>
   map_option (\<lambda>s. (caller s, stdout s))
     (run \<lparr>cls = LineLoader, desc = ascii ''Working'', end_text = ascii ''Done!'',
           timeout = 1 / 100, position = ascii ''front''\<rparr>
          [Caller, Thread, Thread, Caller, Caller, ExitFault (OtherException (ascii ''codec cannot encode character U+25CF''))] initial) =
     Some (Raised (OtherException (ascii ''codec cannot encode character U+25CF'')),
           [Redraw (CR # 0x28BF # SP # ascii ''Working''), Erase (CR # replicate 9 SP)])"
  by (simp add: completion_text_def ascii_def BLACK_CIRCLE_def SP_def CR_def ESC_def NL_def
      sublist_Cons_right step_def caller_step_def thread_step_def initial_def redraw_text_def
      erase_text_def getitem_def replicate_num)

text \<open>
  C6, amended: for a constructed loader and every interleaving of the caller, the thread and
  faults, the output holds the completion line at most once, as the write of its text
  (carriage return, the escape sequence for green, the marker, two spaces, the end text, the
  escape sequence that resets the colour) and then the write of the newline; once the
  second \<open>print\<close> of \<open>__exit__\<close> is through, it holds both, exactly once. Each statement of
  \<open>__exit__\<close> before the \<open>join\<close> can run and raises nothing by itself, so when no \<open>print\<close>
  fails \<open>__exit__\<close> gets there; run without the thread in between, the four statements
  append the erasure, the text and the newline.
\<close>

theorem exit_completion_line:
  assumes "init c d e t p = Inr l" and "run l evs initial = Some s"
  shows "prefix (filter is_Completion (stdout s))
           [Completion (CR # ESC # ascii ''[0;32m'' @ [BLACK_CIRCLE, SP, SP] @ e @ ESC # ascii ''[0m''), Completion [NL]] \<and>
         (caller s \<in> {Join, Returned} \<longrightarrow>
            filter is_Completion (stdout s) =
              [Completion (CR # ESC # ascii ''[0;32m'' @ [BLACK_CIRCLE, SP, SP] @ e @ ESC # ascii ''[0m''), Completion [NL]]) \<and>
         (caller s \<in> {SetDone, ClearLine, PrintEnd, PrintNewline} \<longrightarrow>
            (\<exists>s'. step l Caller s = Some s' \<and>
                  caller s' \<in> {ClearLine, PrintEnd, PrintNewline, Join})) \<and>
         (caller s = SetDone \<longrightarrow>
            (\<exists>s'. run l [Caller, Caller, Caller, Caller] s = Some s' \<and> caller s' = Join \<and>
                  stdout s' =
                    stdout s @
                    [Erase (CR # replicate (length d + length (ANIMATION_STEPS c ! 0) + 1) SP),
                     Completion (CR # ESC # ascii ''[0;32m'' @ [BLACK_CIRCLE, SP, SP] @ e @ ESC # ascii ''[0m''), Completion [NL]]))"
proof -
  from assms(1) have f: "cls l = c" "desc l = d" "end_text l = e"
    by (simp_all add: init_fields)
  from assms(1) have ne: "ANIMATION_STEPS (cls l) \<noteq> []"
    by (rule init_steps_nonempty)
  have ct: "completion_text l = CR # ESC # ascii ''[0;32m'' @ [BLACK_CIRCLE, SP, SP] @ e @ ESC # ascii ''[0m''"
    using f by (simp add: completion_text_def)
  have et: "erase_text l =
      Inr (CR # replicate (length d + length (ANIMATION_STEPS c ! 0) + 1) SP)"
    using assms(1) by (rule erase_text_width)
  have most: "prefix (filter is_Completion (stdout s))
      [Completion (CR # ESC # ascii ''[0;32m'' @ [BLACK_CIRCLE, SP, SP] @ e @ ESC # ascii ''[0m''), Completion [NL]]"
    using reachable_Completion_prefix [OF assms(2)] ct by simp
  have one: "caller s \<in> {Join, Returned} \<longrightarrow>
      filter is_Completion (stdout s) =
        [Completion (CR # ESC # ascii ''[0;32m'' @ [BLACK_CIRCLE, SP, SP] @ e @ ESC # ascii ''[0m''), Completion [NL]]"
    using reachable_Completion_Join [OF assms(2)] ct by simp
  have prog: "caller s \<in> {SetDone, ClearLine, PrintEnd, PrintNewline} \<longrightarrow>
      (\<exists>s'. step l Caller s = Some s' \<and>
            caller s' \<in> {ClearLine, PrintEnd, PrintNewline, Join})"
    using et by (auto simp: step_def caller_step_def)
  have seq: "caller s = SetDone \<Longrightarrow>
      run l [Caller, Caller, Caller, Caller] s =
        Some (s\<lparr>done_flag := True,
                stdout := stdout s @
                  [Erase (CR # replicate (length d + length (ANIMATION_STEPS c ! 0) + 1) SP),
                   Completion (CR # ESC # ascii ''[0;32m'' @ [BLACK_CIRCLE, SP, SP] @ e @ ESC # ascii ''[0m''), Completion [NL]],
                caller := Join\<rparr>)"
    using et ct by (simp add: step_def caller_step_def)
  have uninterrupted: "caller s = SetDone \<longrightarrow>
      (\<exists>s'. run l [Caller, Caller, Caller, Caller] s = Some s' \<and> caller s' = Join \<and>
            stdout s' =
              stdout s @
              [Erase (CR # replicate (length d + length (ANIMATION_STEPS c ! 0) + 1) SP),
               Completion (CR # ESC # ascii ''[0;32m'' @ [BLACK_CIRCLE, SP, SP] @ e @ ESC # ascii ''[0m''), Completion [NL]])"
    using seq by simp
  show ?thesis
    using most one prog uninterrupted by blast
qed

theorem exit_completion_line_witness:
  "init LineLoader (ascii ''Working'') (ascii ''Done!'') (1 / 100) (ascii ''front'') =
     Inr \<lparr>cls = LineLoader, desc = ascii ''Working'', end_text = ascii ''Done!'',
        timeout = 1 / 100, position = ascii ''front''\<rparr> \<and>
   run \<lparr>cls = LineLoader, desc = ascii ''Working'', end_text = ascii ''Done!'',
        timeout = 1 / 100, position = ascii ''front''\<rparr>
       [Caller, Thread, Thread] initial =
     Some \<lparr>done_flag = False, step_count = 0, thread = Sleep, caller = SetDone,
           stdout = [Redraw (CR # 0x28BF # SP # ascii ''Working'')]\<rparr> \<and>
   (\<exists>s'. step \<lparr>cls = LineLoader, desc = ascii ''Working'', end_text = ascii ''Done!'',
        timeout = 1 / 100, position = ascii ''front''\<rparr> Caller
             \<lparr>done_flag = False, step_count = 0, thread = Sleep, caller = SetDone,
              stdout = [Redraw (CR # 0x28BF # SP # ascii ''Working'')]\<rparr> = Some s' \<and>
         caller s' \<in> {ClearLine, PrintEnd, PrintNewline, Join}) \<and>
   (\<exists>s'. run \<lparr>cls = LineLoader, desc = ascii ''Working'', end_text = ascii ''Done!'',
        timeout = 1 / 100, position = ascii ''front''\<rparr>
             [Caller, Caller, Caller, Caller]
             \<lparr>done_flag = False, step_count = 0, thread = Sleep, caller = SetDone,
              stdout = [Redraw (CR # 0x28BF # SP # ascii ''Working'')]\<rparr> = Some s' \<and>
         caller s' = Join \<and>
         stdout s' =
           [Redraw (CR # 0x28BF # SP # ascii ''Working''),
            Erase (CR # replicate 9 SP),
            Completion (CR # ESC # ascii ''[0;32m'' @ [BLACK_CIRCLE, SP, SP] @ ascii ''Done!'' @ ESC # ascii ''[0m''), Completion [NL]]) \<and>
   run \<lparr>cls = LineLoader, desc = ascii ''Working'', end_text = ascii ''Done!'',
        timeout = 1 / 100, position = ascii ''front''\<rparr>
       [Caller, Thread, Thread, Thread, Thread, Thread, Thread, Caller, Caller, Caller, Caller]
       initial =
     Some \<lparr>done_flag = True, step_count = 1, thread = Sleep, caller = Join,
           stdout = [Redraw (CR # 0x28BF # SP # ascii ''Working''),
                     Redraw (CR # 0x28FB # SP # ascii ''Working''),
                     Erase (CR # replicate 9 SP),
                     Completion (CR # ESC # ascii ''[0;32m'' @ [BLACK_CIRCLE, SP, SP] @ ascii ''Done!'' @ ESC # ascii ''[0m''), Completion [NL]]\<rparr> \<and>
   filter is_Completion
     [Redraw (CR # 0x28BF # SP # ascii ''Working''),
      Redraw (CR # 0x28FB # SP # ascii ''Working''),
      Erase (CR # replicate 9 SP),
      Completion (CR # ESC # ascii ''[0;32m'' @ [BLACK_CIRCLE, SP, SP] @ ascii ''Done!'' @ ESC # ascii ''[0m''), Completion [NL]] =
     [Completion (CR # ESC # ascii ''[0;32m'' @ [BLACK_CIRCLE, SP, SP] @ ascii ''Done!'' @ ESC # ascii ''[0m''), Completion [NL]]"
proof -
  let ?l = "\<lparr>cls = LineLoader, desc = ascii ''Working'', end_text = ascii ''Done!'',
        timeout = 1 / 100, position = ascii ''front''\<rparr>"
  let ?a = "\<lparr>done_flag = False, step_count = 0, thread = Sleep, caller = SetDone,
              stdout = [Redraw (CR # 0x28BF # SP # ascii ''Working'')]\<rparr>"
  let ?out = "[Redraw (CR # 0x28BF # SP # ascii ''Working''),
               Redraw (CR # 0x28FB # SP # ascii ''Working''),
               Erase (CR # replicate 9 SP),
               Completion (CR # ESC # ascii ''[0;32m'' @ [BLACK_CIRCLE, SP, SP] @ ascii ''Done!'' @ ESC # ascii ''[0m''), Completion [NL]]"
  let ?b = "\<lparr>done_flag = True, step_count = 1, thread = Sleep, caller = Join, stdout = ?out\<rparr>"
  have i: "init LineLoader (ascii ''Working'') (ascii ''Done!'') (1 / 100) (ascii ''front'') = Inr ?l"
    by (simp add: init_def VALID_POSITIONS_def)
  have r1: "run ?l [Caller, Thread, Thread] initial = Some ?a"
    by (simp add: step_def caller_step_def thread_step_def initial_def redraw_text_def
        getitem_def ascii_def SP_def CR_def)
  have r2: "run ?l [Caller, Thread, Thread, Thread, Thread, Thread, Thread,
                    Caller, Caller, Caller, Caller] initial = Some ?b"
    by (simp add: step_def caller_step_def thread_step_def initial_def redraw_text_def
        erase_text_def completion_text_def advance_def getitem_def ascii_def SP_def CR_def
        replicate_num)
  have len: "length (ascii ''Working'') + length (ANIMATION_STEPS LineLoader ! 0) + 1 = 9"
    by (simp add: ascii_def)
  note w1 = exit_completion_line [OF i r1]
  have p: "\<exists>s'. step ?l Caller ?a = Some s' \<and>
      caller s' \<in> {ClearLine, PrintEnd, PrintNewline, Join}"
    using w1 by simp
  have a: "\<exists>s'. run ?l [Caller, Caller, Caller, Caller] ?a = Some s' \<and> caller s' = Join \<and>
      stdout s' =
        [Redraw (CR # 0x28BF # SP # ascii ''Working''),
         Erase (CR # replicate 9 SP),
         Completion (CR # ESC # ascii ''[0;32m'' @ [BLACK_CIRCLE, SP, SP] @ ascii ''Done!'' @ ESC # ascii ''[0m''), Completion [NL]]"
    using w1 unfolding len by simp
  have b: "filter is_Completion ?out = [Completion (CR # ESC # ascii ''[0;32m'' @ [BLACK_CIRCLE, SP, SP] @ ascii ''Done!'' @ ESC # ascii ''[0m''), Completion [NL]]"
    using exit_completion_line [OF i r2] by simp
  show ?thesis
    using i r1 r2 p a b by blast
qed

text \<open>
  C7 fails on the code: with the default \<open>DotLoader\<close>, after the fifth frame (four bullets,
  a line of 15 characters) \<open>__exit__\<close> erases with 12 spaces, the width computed from the
  first frame.
\<close>

theorem erase_too_short:
  "(case default_loader DotLoader of
      Inl e \<Rightarrow> False
    | Inr l \<Rightarrow>
        map_option (\<lambda>s. drop 4 (stdout s))
          (run l [Caller, Thread, Thread, Thread, Thread, Thread, Thread, Thread, Thread,
                  Thread, Thread, Thread, Thread, Thread, Thread, Thread, Thread,
                  Thread, Thread, Caller, Caller] initial) =
        Some [Redraw (CR # replicate 4 0x2022 @ SP # ascii ''Loading...''),
              Erase (CR # replicate 12 SP)]) \<and>
   length (replicate 12 SP) < length (replicate 4 (0x2022::nat) @ SP # ascii ''Loading...'')"
  by (simp add: default_loader_def init_def VALID_POSITIONS_def step_def caller_step_def
      thread_step_def initial_def redraw_text_def erase_text_def advance_def
      getitem_def ascii_def SP_def CR_def replicate_num)

text \<open>
  C1 fails on the code: with the default \<open>LineLoader\<close>, the thread passes its check of \<open>_done\<close>
  and releases the lock, \<open>__exit__\<close> sets the flag and prints the erasure and the completion
  line (text and newline), and the thread then prints its frame: a redraw follows the
  completion line while the caller is at the \<open>join\<close>.
\<close>

theorem redraw_after_completion:
  "(case default_loader LineLoader of
      Inl e \<Rightarrow> False
    | Inr l \<Rightarrow>
        map_option (\<lambda>s. (caller s, thread s, stdout s))
          (run l [Caller, Thread, Caller, Caller, Caller, Caller, Thread] initial) =
        Some (Join, Sleep,
              [Erase (CR # replicate 12 SP),
               Completion (CR # ESC # ascii ''[0;32m'' @ [BLACK_CIRCLE, SP, SP] @
                           ascii ''Done!'' @ ESC # ascii ''[0m''),
               Completion [NL],
               Redraw (CR # 0x28BF # SP # ascii ''Loading...'')]))"
  by (simp add: default_loader_def init_def VALID_POSITIONS_def step_def caller_step_def
      thread_step_def initial_def redraw_text_def erase_text_def completion_text_def
      getitem_def ascii_def SP_def CR_def replicate_num)

section \<open>The frame tables\<close>

lemma StarsLoader_steps:
  "ANIMATION_STEPS StarsLoader =
     [[0x2729], [0x272A], [0x272B], [0x272C], [0x272D], [0x272F], [0x2730], [0x2605], [0x2731],
      [0x2732], [0x2733], [0x2734], [0x2735], [0x2736], [0x2737], [0x2738], [0x2739], [0x273A],
      [0x273B], [0x273C], [0x273D], [0x273E], [0x273F], [0x2740], [0x2741], [0x2742], [0x2743],
      [0x2744], [0x2745], [0x2746], [0x2747], [0x2748], [0x2749], [0x274A], [0x274B]]"
  by (simp add: SP_def)

lemma CircleDigitLoader_steps:
  "ANIMATION_STEPS CircleDigitLoader =
     [[0x2780], [0x2781], [0x2782], [0x2783], [0x2784], [0x2785], [0x2786], [0x2787], [0x2788],
      [0x2789]]"
  by (simp add: SP_def)

lemma ArrowLoader_steps:
  "ANIMATION_STEPS ArrowLoader = [[0x25B6], [0x25B7], [0x25BA], [0x25BB], [0x25B8], [0x25B9]]"
  by (simp add: SP_def)

text \<open>
  C9 as stated fails: \<open>BounceLoader\<close> has a frame of three characters and \<open>DotLoader\<close> one
  of four.
\<close>

theorem multi_glyph_frame_counterexample:
  "BounceLoader \<in> set subclasses \<and> DotLoader \<in> set subclasses \<and>
   [0x3C, 0x2022, 0x20] \<in> set (ANIMATION_STEPS BounceLoader) \<and>
   length [0x3C, 0x2022, 0x20 :: nat] \<noteq> 1 \<and>
   [0x2022, 0x2022, 0x2022, 0x2022] \<in> set (ANIMATION_STEPS DotLoader) \<and>
   length [0x2022, 0x2022, 0x2022, 0x2022 :: nat] \<noteq> 1"
  by (simp add: subclasses_def)

text \<open>
  C9, amended: for each of the nineteen subclasses the frame sequence is non-empty and each
  frame is a non-empty string; it is a single character for every subclass but
  \<open>BounceLoader\<close>, whose frames have three characters, and \<open>DotLoader\<close>, whose frames have one
  to four.
\<close>

theorem frames_nonempty_glyphs:
  "\<forall>c \<in> set subclasses.
     ANIMATION_STEPS c \<noteq> [] \<and>
     (\<forall>f \<in> set (ANIMATION_STEPS c).
        f \<noteq> [] \<and>
        (c \<notin> {BounceLoader, DotLoader} \<longrightarrow> length f = 1) \<and>
        (c = BounceLoader \<longrightarrow> length f = 3) \<and>
        (c = DotLoader \<longrightarrow> 1 \<le> length f \<and> length f \<le> 4))"
  unfolding subclasses_def StarsLoader_steps CircleDigitLoader_steps ArrowLoader_steps
  by (simp add: StarsLoader_steps CircleDigitLoader_steps ArrowLoader_steps
      del: ANIMATION_STEPS.simps(11,12,15))

theorem frames_nonempty_glyphs_witness:
  "LineLoader \<in> set subclasses \<and> [0x28BF] \<in> set (ANIMATION_STEPS LineLoader) \<and>
   LineLoader \<notin> {BounceLoader, DotLoader} \<and> length [0x28BF :: nat] = 1 \<and>
   BounceLoader \<in> set subclasses \<and> [0x20, 0x2022, 0x3E] \<in> set (ANIMATION_STEPS BounceLoader) \<and>
   length [0x20, 0x2022, 0x3E :: nat] = 3 \<and>
   DotLoader \<in> set subclasses \<and> [0x2022, 0x2022] \<in> set (ANIMATION_STEPS DotLoader) \<and>
   1 \<le> length [0x2022, 0x2022 :: nat] \<and> length [0x2022, 0x2022 :: nat] \<le> 4 \<and>
   ANIMATION_STEPS LineLoader \<noteq> [] \<and> ANIMATION_STEPS BounceLoader \<noteq> [] \<and>
   ANIMATION_STEPS DotLoader \<noteq> []"
proof -
  have c: "LineLoader \<in> set subclasses" "BounceLoader \<in> set subclasses"
    "DotLoader \<in> set subclasses"
    by (simp_all add: subclasses_def)
  have f: "[0x28BF] \<in> set (ANIMATION_STEPS LineLoader)"
    "[0x20, 0x2022, 0x3E] \<in> set (ANIMATION_STEPS BounceLoader)"
    "[0x2022, 0x2022] \<in> set (ANIMATION_STEPS DotLoader)"
    by simp_all
  have n: "LineLoader \<notin> {BounceLoader, DotLoader}"
    by simp
  have a: "ANIMATION_STEPS LineLoader \<noteq> [] \<and> length [0x28BF :: nat] = 1"
    using bspec [OF frames_nonempty_glyphs c(1)] f(1) n by blast
  have b: "ANIMATION_STEPS BounceLoader \<noteq> [] \<and> length [0x20, 0x2022, 0x3E :: nat] = 3"
    using bspec [OF frames_nonempty_glyphs c(2)] f(2) by blast
  have d: "ANIMATION_STEPS DotLoader \<noteq> [] \<and> 1 \<le> length [0x2022, 0x2022 :: nat] \<and>
      length [0x2022, 0x2022 :: nat] \<le> 4"
    using bspec [OF frames_nonempty_glyphs c(3)] f(3) by blast
  show ?thesis
    using c f n a b d by blast
qed

end
